theory Spec2Isabelle
  imports Complex_Main
begin

section \<open>Data model\<close>

text \<open>
  Coordinates are NumPy floats in the source; they are modelled as exact reals, so
  every statement below is about the arithmetic the code writes down, without rounding.
  A point is one row of an \<open>(N, 2)\<close> array.
\<close>

type_synonym point = "real \<times> real"

text \<open>
  The exceptions the tracing code can end with: the \<open>ValueError\<close> raised by
  \<open>trace_conic_off_points\<close>, carrying the point index and the offending tag that
  its message prints, and the \<open>IndexError\<close> of an out-of-range subscript.
\<close>

datatype error = ValueError int nat | IndexError

text \<open>
  The tag constants come from the FreeType binding: \<open>FT_CURVE_TAG(flag)\<close> is
  \<open>flag & 3\<close>, and the three tag values are on = 1, conic = 0, cubic = 2.
\<close>

definition FT_Curve_Tag_On :: nat where
  "FT_Curve_Tag_On = 1"

definition FT_Curve_Tag_Conic :: nat where
  "FT_Curve_Tag_Conic = 0"

definition FT_Curve_Tag_Cubic :: nat where
  "FT_Curve_Tag_Cubic = 2"

definition FT_CURVE_TAG :: "nat \<Rightarrow> nat" where
  "FT_CURVE_TAG flag = flag mod 4"

subsection \<open>Python subscripts and slices\<close>

text \<open>\<open>xs[i]\<close>: a negative index counts from the end, anything out of range raises.\<close>

definition py_index :: "'a list \<Rightarrow> int \<Rightarrow> error + 'a" where
  "py_index xs i =
     (if 0 \<le> i \<and> i < int (length xs) then Inr (xs ! nat i)
      else if i < 0 \<and> - int (length xs) \<le> i then Inr (xs ! nat (int (length xs) + i))
      else Inl IndexError)"

text \<open>\<open>xs[a:b]\<close>: negative bounds count from the end, and both bounds are clamped.\<close>

definition slice_bound :: "nat \<Rightarrow> int \<Rightarrow> nat" where
  "slice_bound n a = (if a < 0 then nat (max (int n + a) 0) else nat (min a (int n)))"

definition py_slice :: "'a list \<Rightarrow> int \<Rightarrow> int \<Rightarrow> 'a list" where
  "py_slice xs a b = drop (slice_bound (length xs) a) (take (slice_bound (length xs) b) xs)"

text \<open>Sequencing of computations that may raise.\<close>

definition and_then :: "error + 'a \<Rightarrow> ('a \<Rightarrow> error + 'b) \<Rightarrow> error + 'b" where
  "and_then m f = (case m of Inl e \<Rightarrow> Inl e | Inr v \<Rightarrow> f v)"

section \<open>bezier\_sampling.py\<close>

text \<open>\<open>scipy.special.comb(n, i)\<close>: the binomial coefficient as a float.\<close>

definition comb :: "nat \<Rightarrow> nat \<Rightarrow> real" where
  "comb n i = real (n choose i)"

text \<open>
  \<open>np.linspace(start, stop, num)\<close> with \<open>num\<close> a count: \<open>num\<close> values from
  \<open>start\<close> to \<open>stop\<close>, both included, with step \<open>(stop - start) / (num - 1)\<close>;
  a single value is \<open>start\<close>. NumPy rejects a negative \<open>num\<close>; the number of
  samples is a natural number here.
\<close>

definition linspace :: "real \<Rightarrow> real \<Rightarrow> nat \<Rightarrow> real list" where
  "linspace start stop num =
     (if num = 1 then [start]
      else map (\<lambda>k. start + real k * ((stop - start) / real (num - 1))) [0..<num])"

text \<open>\<open>bernstein_poly(i, n, t)\<close>, with \<open>t\<close> an array: the operations are elementwise.\<close>

definition bernstein_poly :: "nat \<Rightarrow> nat \<Rightarrow> real list \<Rightarrow> real list" where
  "bernstein_poly i n t = map (\<lambda>tk. comb n i * tk ^ (n - i) * (1 - tk) ^ i) t"

text \<open>\<open>np.dot(a, points)\<close> of a matrix of weights with an \<open>(N, 2)\<close> array of points.\<close>

definition dot_row :: "real list \<Rightarrow> point list \<Rightarrow> point" where
  "dot_row ws ps =
     (sum_list (map2 (\<lambda>w p. w * fst p) ws ps), sum_list (map2 (\<lambda>w p. w * snd p) ws ps))"

definition np_dot :: "real list list \<Rightarrow> point list \<Rightarrow> point list" where
  "np_dot a ps = map (\<lambda>row. dot_row row ps) a"

definition bezier_curve :: "point list \<Rightarrow> nat \<Rightarrow> point list" where
  "bezier_curve points n_samples =
     (let n_points = length points;
          t = linspace 1 0 n_samples;
          polynomial_array = map (\<lambda>i. bernstein_poly i (n_points - 1) t) [0..<n_points]
      in np_dot (transpose polynomial_array) points)"

section \<open>font2vertices.py\<close>

text \<open>\<open>reshape(-1)\<close> of an \<open>(M, 2)\<close> array: the rows one after the other.\<close>

definition reshape_flat :: "point list \<Rightarrow> real list" where
  "reshape_flat ps = concat (map (\<lambda>p. [fst p, snd p]) ps)"

definition pt_add :: "point \<Rightarrow> point \<Rightarrow> point" where
  "pt_add a b = (fst a + fst b, snd a + snd b)"

definition pt_div :: "point \<Rightarrow> real \<Rightarrow> point" where
  "pt_div a c = (fst a / c, snd a / c)"

definition trace_cubic_off_points ::
  "point list \<Rightarrow> nat list \<Rightarrow> int \<Rightarrow> nat \<Rightarrow> error + real list" where
  "trace_cubic_off_points c_points c_tags idx n_segments =
     (let idx_prev = idx - 1;
          idx_next = (if idx = int (length c_points) - 1 then 0 else idx + 1)
      in and_then (py_index c_tags idx_prev) (\<lambda>tag_prev.
           if tag_prev = FT_Curve_Tag_Cubic then
             and_then (py_index c_tags idx) (\<lambda>tag_idx.
               if tag_idx = FT_Curve_Tag_Cubic then
                 and_then (py_index c_points (idx_prev - 1)) (\<lambda>p0.
                 and_then (py_index c_points idx_prev) (\<lambda>p1.
                 and_then (py_index c_points idx) (\<lambda>p2.
                 and_then (py_index c_points idx_next) (\<lambda>p3.
                   Inr (reshape_flat (bezier_curve [p0, p1, p2, p3] n_segments))))))
               else Inr [])
           else Inr []))"

definition trace_conic_off_points ::
  "point list \<Rightarrow> nat list \<Rightarrow> int \<Rightarrow> nat \<Rightarrow> error + real list" where
  "trace_conic_off_points c_points c_tags idx n_segments =
     (let idx_prev = idx - 1;
          idx_next = (if idx = int (length c_points) - 1 then 0 else idx + 1)
      in and_then (py_index c_tags idx_prev) (\<lambda>tag_prev.
         and_then
           (if tag_prev = FT_Curve_Tag_On then py_index c_points idx_prev
            else if tag_prev = FT_Curve_Tag_Conic then
              and_then (py_index c_points idx) (\<lambda>p.
              and_then (py_index c_points idx_prev) (\<lambda>q. Inr (pt_div (pt_add p q) 2)))
            else Inl (ValueError idx tag_prev)) (\<lambda>point_start.
         and_then (py_index c_tags idx_next) (\<lambda>tag_next.
         and_then
           (if tag_next = FT_Curve_Tag_On then py_index c_points idx_next
            else if tag_next = FT_Curve_Tag_Conic then
              and_then (py_index c_points idx) (\<lambda>p.
              and_then (py_index c_points idx_next) (\<lambda>q. Inr (pt_div (pt_add p q) 2)))
            else Inl (ValueError idx tag_next)) (\<lambda>point_end.
         and_then (py_index c_points idx) (\<lambda>p.
           Inr (reshape_flat (bezier_curve [point_start, p, point_end] n_segments))))))))"

text \<open>
  What the glyph object of the FreeType binding provides to \<open>glyph2vertices\<close>:
  \<open>glyph.outline.points\<close>, \<open>glyph.outline.tags\<close> (the raw flag bytes),
  \<open>glyph.outline.contours\<close> (the index of the last point of each contour) and
  \<open>glyph.metrics.vertAdvance\<close>.
\<close>

record glyph =
  outline_points :: "point list"
  outline_tags :: "nat list"
  outline_contours :: "nat list"
  vertAdvance :: real

text \<open>
  One round of the loop over the points of a contour: the coordinates that are
  concatenated to \<open>c_draw_points\<close> for index \<open>i\<close>. A tag that is none of the three
  adds nothing, as the \<open>if\<close>/\<open>elif\<close> chain has no final \<open>else\<close>.
\<close>

definition trace_point :: "point list \<Rightarrow> nat list \<Rightarrow> nat \<Rightarrow> nat \<Rightarrow> error + real list" where
  "trace_point c_points c_tags n_segments i =
     and_then (py_index c_tags (int i)) (\<lambda>tg.
       if tg = FT_Curve_Tag_On then
         and_then (py_index c_points (int i)) (\<lambda>p. Inr [fst p, snd p])
       else if tg = FT_Curve_Tag_Conic then
         trace_conic_off_points c_points c_tags (int i) n_segments
       else if tg = FT_Curve_Tag_Cubic then
         trace_cubic_off_points c_points c_tags (int i) n_segments
       else Inr [])"

text \<open>The loop \<open>for i in range(len(c_points))\<close>, with \<open>c_draw_points\<close> as accumulator.\<close>

fun walk_contour ::
  "point list \<Rightarrow> nat list \<Rightarrow> nat \<Rightarrow> nat list \<Rightarrow> real list \<Rightarrow> error + real list" where
  "walk_contour c_points c_tags n_segments [] c_draw_points = Inr c_draw_points"
| "walk_contour c_points c_tags n_segments (i # rest) c_draw_points =
     and_then (trace_point c_points c_tags n_segments i) (\<lambda>sampled_pts.
       walk_contour c_points c_tags n_segments rest (c_draw_points @ sampled_pts))"

text \<open>
  The loop \<open>for c in contours\<close>, with \<open>prev_c\<close> and \<open>c_draw_contours\<close> as state.
  The division by \<open>vertAdvance\<close> is elementwise; NumPy does not raise when the divisor
  is zero (it yields infinities and NaNs, which the reals do not have), so the model
  agrees with the code for a nonzero \<open>vertAdvance\<close> only.
\<close>

fun trace_contours ::
  "point list \<Rightarrow> nat list \<Rightarrow> real \<Rightarrow> nat \<Rightarrow> int \<Rightarrow> nat list \<Rightarrow> real list list
     \<Rightarrow> error + real list list" where
  "trace_contours points tags va n_segments prev_c [] c_draw_contours = Inr c_draw_contours"
| "trace_contours points tags va n_segments prev_c (c # rest) c_draw_contours =
     (let c_points = py_slice points (prev_c + 1) (int c + 1);
          c_tags = py_slice tags (prev_c + 1) (int c + 1)
      in and_then (walk_contour c_points c_tags n_segments [0..<length c_points] [])
           (\<lambda>c_draw_points.
              trace_contours points tags va n_segments (int c) rest
                (c_draw_contours @ [map (\<lambda>x. x / va) c_draw_points])))"

definition glyph2vertices :: "glyph \<Rightarrow> nat \<Rightarrow> error + real list list" where
  "glyph2vertices g n_segments =
     trace_contours (outline_points g) (map FT_CURVE_TAG (outline_tags g)) (vertAdvance g)
       n_segments (- 1) (outline_contours g) []"

text \<open>\<open>range(0, n, 2)\<close>.\<close>

definition range_step2 :: "nat \<Rightarrow> nat list" where
  "range_step2 n = map (\<lambda>k. 2 * k) [0..<(n + 1) div 2]"

text \<open>The loop \<open>for i in range(0, len(contour), 2)\<close>, with \<open>lines\<close> as accumulator.\<close>

fun contour_windows :: "real list \<Rightarrow> nat list \<Rightarrow> real list \<Rightarrow> real list" where
  "contour_windows contour [] lines = lines"
| "contour_windows contour (i # rest) lines =
     contour_windows contour rest (lines @ py_slice contour (int i) (int i + 4))"

text \<open>The slice that the step \<open># Close the contour\<close> appends.\<close>

definition closing_slice :: "real list \<Rightarrow> real list" where
  "closing_slice contour =
     (if length contour mod 2 \<noteq> 0 then py_slice contour (- 2) 2 else py_slice contour 0 2)"

fun flatten_contours :: "real list list \<Rightarrow> real list \<Rightarrow> real list" where
  "flatten_contours [] lines = lines"
| "flatten_contours (contour # rest) lines =
     flatten_contours rest
       (contour_windows contour (range_step2 (length contour)) lines @ closing_slice contour)"

definition vertices2lines :: "real list list \<Rightarrow> real list" where
  "vertices2lines contours = flatten_contours contours []"

section \<open>Notions used to state the properties\<close>

text \<open>
  A contour is cyclic: the point before index 0 is the last one, the point after the
  last one is index 0.
\<close>

definition cyclic_prev :: "nat \<Rightarrow> nat \<Rightarrow> nat" where
  "cyclic_prev n i = (if i = 0 then n - 1 else i - 1)"

definition cyclic_next :: "nat \<Rightarrow> nat \<Rightarrow> nat" where
  "cyclic_next n i = (if i = n - 1 then 0 else i + 1)"

text \<open>
  The anchor of a conic arc on the side of neighbour \<open>j\<close> of the off point \<open>i\<close>, as
  the specification words it: the neighbour itself when it is on the curve, the middle
  of the two points when the neighbour is a conic off point, a structural error naming
  the index and the tag otherwise. \<open>spec_anchor\<close> is its value where it has one.
\<close>

definition conic_anchor :: "point list \<Rightarrow> nat list \<Rightarrow> nat \<Rightarrow> nat \<Rightarrow> error + point" where
  "conic_anchor c_points c_tags i j =
     (if c_tags ! j = FT_Curve_Tag_On then Inr (c_points ! j)
      else if c_tags ! j = FT_Curve_Tag_Conic then Inr (pt_div (pt_add (c_points ! j) (c_points ! i)) 2)
      else Inl (ValueError (int i) (c_tags ! j)))"

definition spec_anchor :: "point list \<Rightarrow> nat list \<Rightarrow> nat \<Rightarrow> nat \<Rightarrow> point" where
  "spec_anchor c_points c_tags i j =
     (if c_tags ! j = FT_Curve_Tag_On then c_points ! j
      else pt_div (pt_add (c_points ! j) (c_points ! i)) 2)"

text \<open>
  The Bernstein form of the specification: for control points \<open>P_0 .. P_(n-1)\<close> and a
  parameter \<open>u\<close>, the sum over \<open>i\<close> of \<open>C(n-1, i) * u^i * (1-u)^(n-1-i) * P_i\<close>,
  coordinate by coordinate.
\<close>

definition spec_bezier_point :: "point list \<Rightarrow> real \<Rightarrow> point" where
  "spec_bezier_point P u =
     (let n = length P
      in (sum_list (map (\<lambda>i. real ((n - 1) choose i) * u ^ i * (1 - u) ^ (n - 1 - i) * fst (P ! i)) [0..<n]),
          sum_list (map (\<lambda>i. real ((n - 1) choose i) * u ^ i * (1 - u) ^ (n - 1 - i) * snd (P ! i)) [0..<n])))"

text \<open>
  A traced contour is a flat array, two coordinates per point. \<open>point_at\<close> is the
  coordinate pair of point \<open>k\<close>, and \<open>closed_segments\<close> is the closed polyline of
  the specification: for each point \<open>k\<close>, the segment from point \<open>k\<close> to the next
  point, the one after the last point being point 0.
\<close>

definition point_at :: "real list \<Rightarrow> nat \<Rightarrow> real list" where
  "point_at contour k = [contour ! (2 * k), contour ! (2 * k + 1)]"

definition closed_segments :: "real list \<Rightarrow> real list" where
  "closed_segments contour =
     concat (map (\<lambda>k. point_at contour k @ point_at contour ((k + 1) mod (length contour div 2)))
       [0..<length contour div 2])"

text \<open>
  The part of the outline that belongs to contour \<open>k\<close>: \<open>outline.contours\<close> holds
  the index of the last point of each contour, so contour \<open>k\<close> starts one past the end
  of contour \<open>k - 1\<close> (at 0 for the first one) and ends at \<open>contours[k]\<close>, included.
\<close>

definition slice_start :: "int \<Rightarrow> nat list \<Rightarrow> nat \<Rightarrow> int" where
  "slice_start prev_c contours k = (if k = 0 then prev_c + 1 else int (contours ! (k - 1)) + 1)"

definition contour_points :: "glyph \<Rightarrow> nat \<Rightarrow> point list" where
  "contour_points g k =
     py_slice (outline_points g) (slice_start (- 1) (outline_contours g) k)
       (int (outline_contours g ! k) + 1)"

definition contour_tags :: "glyph \<Rightarrow> nat \<Rightarrow> nat list" where
  "contour_tags g k =
     py_slice (map FT_CURVE_TAG (outline_tags g)) (slice_start (- 1) (outline_contours g) k)
       (int (outline_contours g ! k) + 1)"

section \<open>Properties\<close>

lemma and_then_Inr [simp]: "and_then (Inr v) f = f v"
  by (simp add: and_then_def)

lemma and_then_Inl [simp]: "and_then (Inl e) f = Inl e"
  by (simp add: and_then_def)

lemma py_index_nat: "i < length xs \<Longrightarrow> py_index xs (int i) = Inr (xs ! i)"
  by (simp add: py_index_def)

lemma py_index_prev:
  assumes "i < length xs"
  shows "py_index xs (int i - 1) = Inr (xs ! cyclic_prev (length xs) i)"
proof (cases "i = 0")
  case True
  from assms have "Suc 0 \<le> length xs" by simp
  with True show ?thesis
    by (simp add: py_index_def cyclic_prev_def nat_diff_distrib')
next
  case False
  then have "int i - 1 = int (i - 1)" by simp
  moreover from assms have "i - 1 < length xs" by simp
  ultimately show ?thesis
    using False by (simp add: py_index_nat cyclic_prev_def del: of_nat_diff)
qed

lemma py_index_next:
  assumes "i < length xs"
  shows "py_index xs (if int i = int (length xs) - 1 then 0 else int i + 1)
           = Inr (xs ! cyclic_next (length xs) i)"
proof (cases "i = length xs - 1")
  case True
  from assms have "xs \<noteq> []" by auto
  moreover from True assms have "int i = int (length xs) - 1" by auto
  ultimately show ?thesis
    using True by (simp add: py_index_def cyclic_next_def del: of_nat_diff)
next
  case False
  with assms have "i + 1 < length xs" by simp
  then have "py_index xs (int (i + 1)) = Inr (xs ! (i + 1))" by (rule py_index_nat)
  with False assms show ?thesis
    by (auto simp add: cyclic_next_def add.commute)
qed

lemma py_index_prev_prev:
  assumes "i < length xs" and "2 \<le> length xs"
  shows "py_index xs (int i - 2)
           = Inr (xs ! cyclic_prev (length xs) (cyclic_prev (length xs) i))"
proof -
  consider "i = 0" | "i = 1" | "2 \<le> i" by linarith
  then show ?thesis
  proof cases
    case 1
    with assms show ?thesis
      by (simp add: py_index_def cyclic_prev_def nat_diff_distrib' numeral_2_eq_2)
  next
    case 2
    with assms show ?thesis
      by (simp add: py_index_def cyclic_prev_def nat_diff_distrib')
  next
    case 3
    then have "int i - 2 = int (i - 2)" by simp
    moreover from assms have "i - 2 < length xs" by simp
    ultimately show ?thesis
      using 3 by (simp add: py_index_nat cyclic_prev_def numeral_2_eq_2 del: of_nat_diff)
  qed
qed

lemma pt_add_commute: "pt_add a b = pt_add b a"
  by (simp add: pt_add_def)

lemma trace_conic_unfold:
  assumes "i < length c_points" and "length c_tags = length c_points"
  shows "trace_conic_off_points c_points c_tags (int i) n =
           and_then (conic_anchor c_points c_tags i (cyclic_prev (length c_points) i)) (\<lambda>a.
           and_then (conic_anchor c_points c_tags i (cyclic_next (length c_points) i)) (\<lambda>b.
             Inr (reshape_flat (bezier_curve [a, c_points ! i, b] n))))"
proof -
  have t1: "py_index c_tags (int i - 1) = Inr (c_tags ! cyclic_prev (length c_points) i)"
    using py_index_prev [of i c_tags] assms by simp
  have p1: "py_index c_points (int i - 1) = Inr (c_points ! cyclic_prev (length c_points) i)"
    using py_index_prev [of i c_points] assms by simp
  have t2: "py_index c_tags (if int i = int (length c_points) - 1 then 0 else int i + 1)
              = Inr (c_tags ! cyclic_next (length c_points) i)"
    using py_index_next [of i c_tags] assms by simp
  have p2: "py_index c_points (if int i = int (length c_points) - 1 then 0 else int i + 1)
              = Inr (c_points ! cyclic_next (length c_points) i)"
    using py_index_next [of i c_points] assms by simp
  have p0: "py_index c_points (int i) = Inr (c_points ! i)"
    using assms by (simp add: py_index_nat)
  show ?thesis
    unfolding trace_conic_off_points_def Let_def t1 p1 t2 p2 p0 conic_anchor_def
    by (simp add: pt_add_commute)
qed

lemma trace_cubic_unfold:
  assumes "i < length c_points" and "length c_tags = length c_points"
  shows "trace_cubic_off_points c_points c_tags (int i) n =
           (if c_tags ! cyclic_prev (length c_points) i = FT_Curve_Tag_Cubic
               \<and> c_tags ! i = FT_Curve_Tag_Cubic
            then and_then (py_index c_points (int i - 2)) (\<lambda>p0.
                   Inr (reshape_flat (bezier_curve
                     [p0, c_points ! cyclic_prev (length c_points) i, c_points ! i,
                      c_points ! cyclic_next (length c_points) i] n)))
            else Inr [])"
proof -
  have t1: "py_index c_tags (int i - 1) = Inr (c_tags ! cyclic_prev (length c_points) i)"
    using py_index_prev [of i c_tags] assms by simp
  have p1: "py_index c_points (int i - 1) = Inr (c_points ! cyclic_prev (length c_points) i)"
    using py_index_prev [of i c_points] assms by simp
  have p2: "py_index c_points (if int i = int (length c_points) - 1 then 0 else int i + 1)
              = Inr (c_points ! cyclic_next (length c_points) i)"
    using py_index_next [of i c_points] assms by simp
  have p0: "py_index c_points (int i) = Inr (c_points ! i)"
    using assms by (simp add: py_index_nat)
  have t0: "py_index c_tags (int i) = Inr (c_tags ! i)"
    using assms by (simp add: py_index_nat)
  show ?thesis
    unfolding trace_cubic_off_points_def Let_def t1 p1 p2 p0 t0
    by simp
qed

lemma length_linspace: "length (linspace a b s) = s"
  by (simp add: linspace_def)

lemma linspace_nth:
  assumes "2 \<le> s" and "k < s"
  shows "linspace 1 0 s ! k = 1 - real k / real (s - 1)"
  using assms by (simp add: linspace_def)

lemma linspace_single: "linspace 1 0 (Suc 0) ! 0 = 1"
  by (simp add: linspace_def)

lemma map2_upt_nth:
  "map2 g (map w [0..<length P]) P = map (\<lambda>i. g (w i) (P ! i)) [0..<length P]"
  by (rule nth_equalityI) simp_all

lemma dot_row_weights:
  "dot_row (map w [0..<length P]) P =
     (sum_list (map (\<lambda>i. w i * fst (P ! i)) [0..<length P]),
      sum_list (map (\<lambda>i. w i * snd (P ! i)) [0..<length P]))"
  by (simp add: dot_row_def map2_upt_nth)

lemma bezier_curve_rows:
  assumes "P \<noteq> []"
  shows "bezier_curve P s =
           map (\<lambda>k. dot_row (map (\<lambda>i. comb (length P - 1) i
                                   * (linspace 1 0 s ! k) ^ (length P - 1 - i)
                                   * (1 - linspace 1 0 s ! k) ^ i) [0..<length P]) P) [0..<s]"
proof -
  let ?poly = "map (\<lambda>i. bernstein_poly i (length P - 1) (linspace 1 0 s)) [0..<length P]"
  have ne: "?poly = [] \<Longrightarrow> s = 0" using assms by simp
  have rect: "\<And>i. i < length ?poly \<Longrightarrow> length (?poly ! i) = s"
    by (simp add: bernstein_poly_def length_linspace)
  have tr: "transpose ?poly = map (\<lambda>k. map (\<lambda>j. ?poly ! j ! k) [0..<length ?poly]) [0..<s]"
    by (rule transpose_rectangle [OF ne rect])
  have "bezier_curve P s = np_dot (transpose ?poly) P"
    by (simp add: bezier_curve_def Let_def)
  also have "\<dots> = map (\<lambda>k. dot_row (map (\<lambda>j. ?poly ! j ! k) [0..<length ?poly]) P) [0..<s]"
    unfolding tr np_dot_def by (simp add: comp_def)
  also have "\<dots> = map (\<lambda>k. dot_row (map (\<lambda>i. comb (length P - 1) i
                                   * (linspace 1 0 s ! k) ^ (length P - 1 - i)
                                   * (1 - linspace 1 0 s ! k) ^ i) [0..<length P]) P) [0..<s]"
    by (rule map_cong [OF refl], rule arg_cong [where f = "\<lambda>ws. dot_row ws P"])
       (simp add: bernstein_poly_def length_linspace)
  finally show ?thesis .
qed

lemma length_bezier_curve: "P \<noteq> [] \<Longrightarrow> length (bezier_curve P s) = s"
  by (simp add: bezier_curve_rows)

lemma bezier_curve_nth:
  assumes "P \<noteq> []" and "2 \<le> s" and "k < s"
  shows "bezier_curve P s ! k = spec_bezier_point P (real k / real (s - 1))"
proof -
  let ?u = "real k / real (s - 1)"
  have t: "linspace 1 0 s ! k = 1 - ?u" using assms by (simp add: linspace_nth)
  show ?thesis
    using assms
    by (simp add: bezier_curve_rows t dot_row_weights spec_bezier_point_def Let_def
        comb_def mult_ac)
qed

lemma sum_list_upt_delta:
  fixes f :: "nat \<Rightarrow> real"
  assumes "a < n"
  shows "sum_list (map (\<lambda>i. if i = a then f i else 0) [0..<n]) = f a"
  using assms by (simp add: interv_sum_list_conv_sum_set_nat)

lemma spec_bezier_point_0:
  assumes "P \<noteq> []"
  shows "spec_bezier_point P 0 = P ! 0"
proof -
  have n: "0 < length P" using assms by simp
  have e: "\<And>x :: nat \<Rightarrow> real. (\<lambda>i. real ((length P - 1) choose i) * 0 ^ i * (1 - 0) ^ (length P - 1 - i) * x i)
          = (\<lambda>i. if i = 0 then x i else 0)"
    by (rule ext) (simp add: power_0_left)
  show ?thesis
    by (simp only: spec_bezier_point_def Let_def e sum_list_upt_delta [OF n]) simp
qed

lemma spec_bezier_point_1:
  assumes "P \<noteq> []"
  shows "spec_bezier_point P 1 = P ! (length P - 1)"
proof -
  have n: "length P - 1 < length P" using assms by simp
  have e: "\<And>x :: nat \<Rightarrow> real. map (\<lambda>i. real ((length P - 1) choose i) * 1 ^ i * (1 - 1) ^ (length P - 1 - i) * x i) [0..<length P]
          = map (\<lambda>i. if i = length P - 1 then x i else 0) [0..<length P]"
    by (rule map_cong [OF refl]) (auto simp add: power_0_left)
  show ?thesis
    by (simp only: spec_bezier_point_def Let_def e sum_list_upt_delta [OF n]) simp
qed

lemma bezier_curve_first:
  assumes "P \<noteq> []" and "2 \<le> s"
  shows "bezier_curve P s ! 0 = P ! 0"
  using assms bezier_curve_nth [of P s 0] by (simp add: spec_bezier_point_0)

lemma bezier_curve_last:
  assumes "P \<noteq> []" and "2 \<le> s"
  shows "bezier_curve P s ! (s - 1) = P ! (length P - 1)"
  using assms bezier_curve_nth [of P s "s - 1"] by (simp add: spec_bezier_point_1)

lemma conic_anchor_good:
  assumes "c_tags ! j \<in> {FT_Curve_Tag_On, FT_Curve_Tag_Conic}"
  shows "conic_anchor c_points c_tags i j = Inr (spec_anchor c_points c_tags i j)"
  using assms by (auto simp add: conic_anchor_def spec_anchor_def)

lemma conic_anchor_bad:
  assumes "c_tags ! j \<notin> {FT_Curve_Tag_On, FT_Curve_Tag_Conic}"
  shows "conic_anchor c_points c_tags i j = Inl (ValueError (int i) (c_tags ! j))"
  using assms by (simp add: conic_anchor_def)

text \<open>
  Claim C1. For an index \<open>i\<close> of a contour whose tag is conic and whose two cyclic
  neighbours are each on the curve or conic, \<open>trace_conic_off_points\<close> returns the
  sampled quadratic arc with control points start anchor, \<open>c_points[i]\<close>, end anchor.
  Each anchor is the neighbour itself when that is on the curve and the middle of the
  neighbour and \<open>c_points[i]\<close> when it is conic; the sampler gets the caller's
  \<open>n_segments\<close>.
\<close>

theorem trace_conic_off_points_arc:
  assumes "i < length c_points" and "length c_tags = length c_points"
    and "c_tags ! i = FT_Curve_Tag_Conic"
    and "c_tags ! cyclic_prev (length c_points) i \<in> {FT_Curve_Tag_On, FT_Curve_Tag_Conic}"
    and "c_tags ! cyclic_next (length c_points) i \<in> {FT_Curve_Tag_On, FT_Curve_Tag_Conic}"
  shows "trace_conic_off_points c_points c_tags (int i) n_segments =
           Inr (reshape_flat (bezier_curve
             [spec_anchor c_points c_tags i (cyclic_prev (length c_points) i),
              c_points ! i,
              spec_anchor c_points c_tags i (cyclic_next (length c_points) i)] n_segments))"
  using conic_anchor_good [OF assms(4), of c_points i] conic_anchor_good [OF assms(5), of c_points i]
  by (simp add: trace_conic_unfold [OF assms(1,2)])

theorem trace_conic_off_points_arc_witness:
  "trace_conic_off_points [(0, 0), (2, 4), (6, 0), (8, 2)] [1, 0, 0, 1] 1 5 =
     Inr (reshape_flat (bezier_curve [(0, 0), (2, 4), (4, 2)] 5))
   \<and> pt_div (pt_add (6, 0) (2, 4)) 2 = (4, 2)"
  using trace_conic_off_points_arc [of 1 "[(0, 0), (2, 4), (6, 0), (8, 2)]" "[1, 0, 0, 1]" 5]
  by (simp add: cyclic_prev_def cyclic_next_def spec_anchor_def FT_Curve_Tag_On_def
      FT_Curve_Tag_Conic_def pt_div_def pt_add_def)

text \<open>
  Claim C7. When the previous or the next point of index \<open>i\<close> is tagged neither on
  nor conic, \<open>trace_conic_off_points\<close> raises the \<open>ValueError\<close> that names \<open>i\<close>
  (and the offending tag, the previous one first); when both neighbours are on or conic
  it returns a value.
\<close>

theorem trace_conic_off_points_structural_error:
  assumes "i < length c_points" and "length c_tags = length c_points"
  shows "(c_tags ! cyclic_prev (length c_points) i \<notin> {FT_Curve_Tag_On, FT_Curve_Tag_Conic}
            \<longrightarrow> trace_conic_off_points c_points c_tags (int i) n_segments
                  = Inl (ValueError (int i) (c_tags ! cyclic_prev (length c_points) i)))
       \<and> (c_tags ! cyclic_prev (length c_points) i \<in> {FT_Curve_Tag_On, FT_Curve_Tag_Conic}
            \<and> c_tags ! cyclic_next (length c_points) i \<notin> {FT_Curve_Tag_On, FT_Curve_Tag_Conic}
            \<longrightarrow> trace_conic_off_points c_points c_tags (int i) n_segments
                  = Inl (ValueError (int i) (c_tags ! cyclic_next (length c_points) i)))
       \<and> (c_tags ! cyclic_prev (length c_points) i \<in> {FT_Curve_Tag_On, FT_Curve_Tag_Conic}
            \<and> c_tags ! cyclic_next (length c_points) i \<in> {FT_Curve_Tag_On, FT_Curve_Tag_Conic}
            \<longrightarrow> (\<exists>v. trace_conic_off_points c_points c_tags (int i) n_segments = Inr v))"
proof (intro conjI impI)
  assume "c_tags ! cyclic_prev (length c_points) i \<notin> {FT_Curve_Tag_On, FT_Curve_Tag_Conic}"
  then show "trace_conic_off_points c_points c_tags (int i) n_segments
               = Inl (ValueError (int i) (c_tags ! cyclic_prev (length c_points) i))"
    using conic_anchor_bad [of c_tags "cyclic_prev (length c_points) i" c_points i]
    by (simp add: trace_conic_unfold [OF assms])
next
  assume "c_tags ! cyclic_prev (length c_points) i \<in> {FT_Curve_Tag_On, FT_Curve_Tag_Conic}
            \<and> c_tags ! cyclic_next (length c_points) i \<notin> {FT_Curve_Tag_On, FT_Curve_Tag_Conic}"
  then show "trace_conic_off_points c_points c_tags (int i) n_segments
               = Inl (ValueError (int i) (c_tags ! cyclic_next (length c_points) i))"
    using conic_anchor_good [of c_tags "cyclic_prev (length c_points) i" c_points i]
      conic_anchor_bad [of c_tags "cyclic_next (length c_points) i" c_points i]
    by (simp add: trace_conic_unfold [OF assms])
next
  assume "c_tags ! cyclic_prev (length c_points) i \<in> {FT_Curve_Tag_On, FT_Curve_Tag_Conic}
            \<and> c_tags ! cyclic_next (length c_points) i \<in> {FT_Curve_Tag_On, FT_Curve_Tag_Conic}"
  then show "\<exists>v. trace_conic_off_points c_points c_tags (int i) n_segments = Inr v"
    using conic_anchor_good [of c_tags "cyclic_prev (length c_points) i" c_points i]
      conic_anchor_good [of c_tags "cyclic_next (length c_points) i" c_points i]
    by (simp add: trace_conic_unfold [OF assms])
qed

theorem trace_conic_off_points_structural_error_witness:
  "trace_conic_off_points [(0, 0), (2, 4), (6, 0), (8, 2)] [2, 0, 1, 1] 1 5 = Inl (ValueError 1 2)
   \<and> trace_conic_off_points [(0, 0), (2, 4), (6, 0), (8, 2)] [1, 0, 2, 2] 1 5 = Inl (ValueError 1 2)
   \<and> trace_conic_off_points [(0, 0), (2, 4), (6, 0), (8, 2)] [3, 1, 1, 0] 3 5 = Inl (ValueError 3 3)
   \<and> (\<exists>v. trace_conic_off_points [(0, 0), (2, 4), (6, 0), (8, 2)] [1, 0, 0, 1] 1 5 = Inr v)"
  using trace_conic_off_points_structural_error
          [of 1 "[(0, 0), (2, 4), (6, 0), (8, 2)]" "[2, 0, 1, 1]" 5]
        trace_conic_off_points_structural_error
          [of 1 "[(0, 0), (2, 4), (6, 0), (8, 2)]" "[1, 0, 2, 2]" 5]
        trace_conic_off_points_structural_error
          [of 3 "[(0, 0), (2, 4), (6, 0), (8, 2)]" "[3, 1, 1, 0]" 5]
        trace_conic_off_points_structural_error
          [of 1 "[(0, 0), (2, 4), (6, 0), (8, 2)]" "[1, 0, 0, 1]" 5]
  by (simp add: cyclic_prev_def cyclic_next_def FT_Curve_Tag_On_def FT_Curve_Tag_Conic_def)

text \<open>
  Claim C9. For an index tagged cubic whose previous point is not tagged cubic,
  \<open>trace_cubic_off_points\<close> returns the empty array and raises nothing.
\<close>

theorem trace_cubic_off_points_isolated:
  assumes "i < length c_points" and "length c_tags = length c_points"
    and "c_tags ! i = FT_Curve_Tag_Cubic"
    and "c_tags ! cyclic_prev (length c_points) i \<noteq> FT_Curve_Tag_Cubic"
  shows "trace_cubic_off_points c_points c_tags (int i) n_segments = Inr []"
  using assms(4) by (simp add: trace_cubic_unfold [OF assms(1,2)])

theorem trace_cubic_off_points_isolated_witness:
  "trace_cubic_off_points [(0, 0), (2, 4), (6, 0), (8, 2)] [1, 2, 1, 1] 1 5 = Inr []
   \<and> trace_cubic_off_points [(0, 0), (2, 4), (6, 0), (8, 2)] [2, 1, 1, 1] 0 5 = Inr []"
  using trace_cubic_off_points_isolated [of 1 "[(0, 0), (2, 4), (6, 0), (8, 2)]" "[1, 2, 1, 1]" 5]
        trace_cubic_off_points_isolated [of 0 "[(0, 0), (2, 4), (6, 0), (8, 2)]" "[2, 1, 1, 1]" 5]
  by (simp add: cyclic_prev_def FT_Curve_Tag_Cubic_def)

lemma trace_cubic_second_of_pair:
  assumes "i < length c_points" and "length c_tags = length c_points"
    and "2 \<le> length c_points"
    and "c_tags ! cyclic_prev (length c_points) i = FT_Curve_Tag_Cubic"
    and "c_tags ! i = FT_Curve_Tag_Cubic"
  shows "trace_cubic_off_points c_points c_tags (int i) n_segments =
           Inr (reshape_flat (bezier_curve
             [c_points ! cyclic_prev (length c_points) (cyclic_prev (length c_points) i),
              c_points ! cyclic_prev (length c_points) i,
              c_points ! i,
              c_points ! cyclic_next (length c_points) i] n_segments))"
  using assms(4,5)
  by (simp add: trace_cubic_unfold [OF assms(1,2)] py_index_prev_prev [OF assms(1,3)])

lemma length_reshape_flat: "length (reshape_flat ps) = 2 * length ps"
  by (induction ps) (simp_all add: reshape_flat_def)

text \<open>
  Claim C2, amended. For a cubic pair at indices \<open>i - 1\<close> and \<open>i\<close> whose preceding point
  is not itself tagged cubic, and at least two samples: the call at \<open>i - 1\<close> returns the
  empty array, and the call at \<open>i\<close> returns the sampled cubic arc with control points
  [point before the pair, first of the pair, second of the pair, point after the pair]:
  \<open>sample_count\<close> points (twice as many coordinates), the first one the point before
  the pair and the last one the point after it.
\<close>

theorem trace_cubic_off_points_pair:
  assumes "1 \<le> i" and "i < length c_points" and "length c_tags = length c_points"
    and "c_tags ! (i - 1) = FT_Curve_Tag_Cubic" and "c_tags ! i = FT_Curve_Tag_Cubic"
    and "c_tags ! cyclic_prev (length c_points) (i - 1) \<noteq> FT_Curve_Tag_Cubic"
    and "2 \<le> sample_count"
  shows "trace_cubic_off_points c_points c_tags (int i - 1) sample_count = Inr []
       \<and> (let arc = bezier_curve
                      [c_points ! cyclic_prev (length c_points) (i - 1),
                       c_points ! (i - 1),
                       c_points ! i,
                       c_points ! cyclic_next (length c_points) i] sample_count
          in trace_cubic_off_points c_points c_tags (int i) sample_count = Inr (reshape_flat arc)
             \<and> length arc = sample_count
             \<and> length (reshape_flat arc) = 2 * sample_count
             \<and> hd arc = c_points ! cyclic_prev (length c_points) (i - 1)
             \<and> last arc = c_points ! cyclic_next (length c_points) i)"
proof -
  let ?N = "length c_points"
  let ?arc = "bezier_curve [c_points ! cyclic_prev ?N (i - 1), c_points ! (i - 1),
                            c_points ! i, c_points ! cyclic_next ?N i] sample_count"
  have pi: "cyclic_prev ?N i = i - 1" using assms(1) by (simp add: cyclic_prev_def)
  have i1: "i - 1 < ?N" using assms(2) by simp
  have eq: "int i - 1 = int (i - 1)" using assms(1) by simp
  have "trace_cubic_off_points c_points c_tags (int (i - 1)) sample_count = Inr []"
    using assms(6) by (simp only: trace_cubic_unfold [OF i1 assms(3)] if_False simp_thms)
  then have first: "trace_cubic_off_points c_points c_tags (int i - 1) sample_count = Inr []"
    by (simp only: eq)
  have N2: "2 \<le> ?N" using assms(1,2) by simp
  have second: "trace_cubic_off_points c_points c_tags (int i) sample_count
                  = Inr (reshape_flat ?arc)"
    using trace_cubic_second_of_pair [OF assms(2,3) N2, of sample_count] assms(4,5)
    by (simp add: pi)
  have len: "length ?arc = sample_count" by (simp add: length_bezier_curve)
  have flat: "length (reshape_flat ?arc) = 2 * sample_count"
    by (simp only: length_reshape_flat len)
  from len assms(7) have ne: "?arc \<noteq> []" by auto
  have h: "hd ?arc = c_points ! cyclic_prev ?N (i - 1)"
    using bezier_curve_first [OF _ assms(7), of "[c_points ! cyclic_prev ?N (i - 1), c_points ! (i - 1),
                            c_points ! i, c_points ! cyclic_next ?N i]"] ne
    by (simp add: hd_conv_nth)
  have l: "last ?arc = c_points ! cyclic_next ?N i"
    using bezier_curve_last [OF _ assms(7), of "[c_points ! cyclic_prev ?N (i - 1), c_points ! (i - 1),
                            c_points ! i, c_points ! cyclic_next ?N i]"] ne len
    by (simp add: last_conv_nth)
  show ?thesis
    unfolding Let_def using first second len flat h l by blast
qed

theorem trace_cubic_off_points_pair_witness:
  "trace_cubic_off_points [(0, 0), (1, 3), (3, 3), (4, 0)] [1, 2, 2, 1] 1 5 = Inr []
   \<and> trace_cubic_off_points [(0, 0), (1, 3), (3, 3), (4, 0)] [1, 2, 2, 1] 2 5
       = Inr (reshape_flat (bezier_curve [(0, 0), (1, 3), (3, 3), (4, 0)] 5))
   \<and> length (bezier_curve [(0, 0), (1, 3), (3, 3), (4, 0)] 5) = 5
   \<and> hd (bezier_curve [(0, 0), (1, 3), (3, 3), (4, 0)] 5) = (0, 0)
   \<and> last (bezier_curve [(0, 0), (1, 3), (3, 3), (4, 0)] 5) = (4, 0)"
  using trace_cubic_off_points_pair [of 2 "[(0, 0), (1, 3), (3, 3), (4, 0)]" "[1, 2, 2, 1]" 5]
  by (simp add: cyclic_prev_def cyclic_next_def FT_Curve_Tag_Cubic_def Let_def)

lemma bezier_two_samples:
  assumes "P \<noteq> []"
  shows "bezier_curve P 2 = [P ! 0, P ! (length P - 1)]"
proof (rule nth_equalityI)
  show "length (bezier_curve P 2) = length [P ! 0, P ! (length P - 1)]"
    using assms by (simp add: length_bezier_curve)
next
  fix k assume "k < length (bezier_curve P 2)"
  then have "k = 0 \<or> k = 1" using assms by (auto simp add: length_bezier_curve)
  then show "bezier_curve P 2 ! k = [P ! 0, P ! (length P - 1)] ! k"
    using bezier_curve_first [OF assms, of 2] bezier_curve_last [OF assms, of 2] by auto
qed

text \<open>
  Claim C2 as stated fails where three points in a row are tagged cubic: the two at
  indices 2 and 3 form a pair, yet the call at index 2 traces an arc, because the point
  at index 1 is tagged cubic as well.
\<close>

theorem trace_cubic_off_points_pair_counterexample:
  "[1, 2, 2, 2, 1] ! (3 - 1) = FT_Curve_Tag_Cubic \<and> [1, 2, 2, 2, 1] ! 3 = FT_Curve_Tag_Cubic
   \<and> trace_cubic_off_points [(0, 0), (1, 3), (2, 4), (3, 3), (4, 0)] [1, 2, 2, 2, 1] (3 - 1) 2
       = Inr [0, 0, 3, 3]
   \<and> trace_cubic_off_points [(0, 0), (1, 3), (2, 4), (3, 3), (4, 0)] [1, 2, 2, 2, 1] (3 - 1) 2
       \<noteq> Inr []"
proof -
  have "trace_cubic_off_points [(0, 0), (1, 3), (2, 4), (3, 3), (4, 0)] [1, 2, 2, 2, 1] (int 2) 2
       = Inr (reshape_flat (bezier_curve [(0, 0), (1, 3), (2, 4), (3, 3)] 2))"
    using trace_cubic_second_of_pair [of 2 "[(0, 0), (1, 3), (2, 4), (3, 3), (4, 0)]" "[1, 2, 2, 2, 1]" 2]
    by (simp add: cyclic_prev_def cyclic_next_def FT_Curve_Tag_Cubic_def)
  then show ?thesis
    by (simp add: bezier_two_samples reshape_flat_def FT_Curve_Tag_Cubic_def)
qed

text \<open>
  Claim C3. For at least two control points and at least two samples, the first point
  that \<open>bezier_curve\<close> returns is the first control point and the last one is the last
  control point.
\<close>

theorem bezier_curve_endpoints:
  assumes "2 \<le> length control_points" and "2 \<le> sample_count"
  shows "hd (bezier_curve control_points sample_count) = control_points ! 0
       \<and> last (bezier_curve control_points sample_count)
           = control_points ! (length control_points - 1)"
proof -
  from assms(1) have ne: "control_points \<noteq> []" by auto
  have len: "length (bezier_curve control_points sample_count) = sample_count"
    using ne by (rule length_bezier_curve)
  with assms(2) have arc: "bezier_curve control_points sample_count \<noteq> []" by auto
  have "hd (bezier_curve control_points sample_count) = control_points ! 0"
    using bezier_curve_first [OF ne assms(2)] arc by (simp add: hd_conv_nth)
  moreover have "last (bezier_curve control_points sample_count)
                   = control_points ! (length control_points - 1)"
    using bezier_curve_last [OF ne assms(2)] arc len by (simp add: last_conv_nth)
  ultimately show ?thesis by simp
qed

theorem bezier_curve_endpoints_witness:
  "hd (bezier_curve [(0, 0), (1, 2), (2, 0)] 5) = (0, 0)
   \<and> last (bezier_curve [(0, 0), (1, 2), (2, 0)] 5) = (2, 0)"
  using bezier_curve_endpoints [of "[(0, 0), (1, 2), (2, 0)]" 5] by simp

text \<open>
  Claim C4. For at least two control points and at least two samples, \<open>bezier_curve\<close>
  returns \<open>sample_count\<close> points, and point \<open>k\<close> is the Bernstein sum of the
  specification at the parameter \<open>k / (sample_count - 1)\<close>.
\<close>

theorem bezier_curve_bernstein:
  assumes "2 \<le> length control_points" and "2 \<le> sample_count"
  shows "length (bezier_curve control_points sample_count) = sample_count
       \<and> (\<forall>k<sample_count.
             bezier_curve control_points sample_count ! k
               = spec_bezier_point control_points (real k / real (sample_count - 1)))"
proof -
  from assms(1) have ne: "control_points \<noteq> []" by auto
  show ?thesis
    using length_bezier_curve [OF ne] bezier_curve_nth [OF ne assms(2)] by simp
qed

lemma upt_3: "[0..<3] = [0, 1, 2]"
  by (simp add: upt_rec)

theorem bezier_curve_bernstein_witness:
  "length (bezier_curve [(0, 0), (1, 2), (2, 0)] 5) = 5
   \<and> bezier_curve [(0, 0), (1, 2), (2, 0)] 5 ! 1 = (1 / 2, 3 / 4)
   \<and> bezier_curve [(0, 0), (1, 2), (2, 0)] 5 ! 2 = (1, 1)"
proof -
  have "\<forall>k<5. bezier_curve [(0, 0), (1, 2), (2, 0)] 5 ! k
               = spec_bezier_point [(0, 0), (1, 2), (2, 0)] (real k / real (5 - 1 :: nat))"
    and len: "length (bezier_curve [(0, 0), (1, 2), (2, 0)] 5) = 5"
    using bezier_curve_bernstein [of "[(0, 0), (1, 2), (2, 0)]" 5] by simp_all
  then have "bezier_curve [(0, 0), (1, 2), (2, 0)] 5 ! 1
               = spec_bezier_point [(0, 0), (1, 2), (2, 0)] (1 / 4)"
    and "bezier_curve [(0, 0), (1, 2), (2, 0)] 5 ! 2
               = spec_bezier_point [(0, 0), (1, 2), (2, 0)] (2 / 4)"
    by (simp, simp)
  then show ?thesis
    using len by (simp add: spec_bezier_point_def upt_3 power2_eq_square)
qed

text \<open>
  Claim C10. In a contour of at least two points the previous direction wraps: at index
  0, \<open>trace_conic_off_points\<close> takes its start anchor (or its error) from the last
  point of the contour, and for a cubic pair at indices 0 and 1,
  \<open>trace_cubic_off_points\<close> takes the last point as the point before the pair.
\<close>

theorem previous_point_wraps_to_last:
  assumes "2 \<le> length c_points" and "length c_tags = length c_points"
  shows "(c_tags ! (length c_points - 1) \<notin> {FT_Curve_Tag_On, FT_Curve_Tag_Conic}
            \<longrightarrow> trace_conic_off_points c_points c_tags 0 n_segments
                  = Inl (ValueError 0 (c_tags ! (length c_points - 1))))
       \<and> (c_tags ! (length c_points - 1) \<in> {FT_Curve_Tag_On, FT_Curve_Tag_Conic}
            \<and> c_tags ! 1 \<in> {FT_Curve_Tag_On, FT_Curve_Tag_Conic}
            \<longrightarrow> trace_conic_off_points c_points c_tags 0 n_segments
                  = Inr (reshape_flat (bezier_curve
                      [spec_anchor c_points c_tags 0 (length c_points - 1),
                       c_points ! 0,
                       spec_anchor c_points c_tags 0 1] n_segments)))
       \<and> (c_tags ! 0 = FT_Curve_Tag_Cubic \<and> c_tags ! 1 = FT_Curve_Tag_Cubic
            \<longrightarrow> trace_cubic_off_points c_points c_tags 1 n_segments
                  = Inr (reshape_flat (bezier_curve
                      [c_points ! (length c_points - 1),
                       c_points ! 0,
                       c_points ! 1,
                       c_points ! cyclic_next (length c_points) 1] n_segments)))"
proof -
  let ?N = "length c_points"
  have i0: "0 < ?N" and i1: "1 < ?N" using assms(1) by auto
  have p0: "cyclic_prev ?N 0 = ?N - 1" by (simp add: cyclic_prev_def)
  have n0: "cyclic_next ?N 0 = 1" using assms(1) by (simp add: cyclic_next_def)
  have p1: "cyclic_prev ?N 1 = 0" by (simp add: cyclic_prev_def)
  have conic: "trace_conic_off_points c_points c_tags 0 n_segments =
           and_then (conic_anchor c_points c_tags 0 (?N - 1)) (\<lambda>a.
           and_then (conic_anchor c_points c_tags 0 1) (\<lambda>b.
             Inr (reshape_flat (bezier_curve [a, c_points ! 0, b] n_segments))))"
    using trace_conic_unfold [OF i0 assms(2), of n_segments] by (simp only: p0 n0 of_nat_0)
  have cubic: "c_tags ! 0 = FT_Curve_Tag_Cubic \<Longrightarrow> c_tags ! 1 = FT_Curve_Tag_Cubic \<Longrightarrow>
      trace_cubic_off_points c_points c_tags 1 n_segments
                  = Inr (reshape_flat (bezier_curve
                      [c_points ! (?N - 1), c_points ! 0, c_points ! 1,
                       c_points ! cyclic_next ?N 1] n_segments))"
    using trace_cubic_second_of_pair [OF i1 assms(2,1), of n_segments]
    by (simp only: p0 p1 of_nat_1)
  show ?thesis
  proof (intro conjI impI)
    assume "c_tags ! (?N - 1) \<notin> {FT_Curve_Tag_On, FT_Curve_Tag_Conic}"
    then show "trace_conic_off_points c_points c_tags 0 n_segments
                  = Inl (ValueError 0 (c_tags ! (?N - 1)))"
      using conic_anchor_bad [of c_tags "?N - 1" c_points 0] by (simp add: conic)
  next
    assume "c_tags ! (?N - 1) \<in> {FT_Curve_Tag_On, FT_Curve_Tag_Conic}
            \<and> c_tags ! 1 \<in> {FT_Curve_Tag_On, FT_Curve_Tag_Conic}"
    then show "trace_conic_off_points c_points c_tags 0 n_segments
                  = Inr (reshape_flat (bezier_curve
                      [spec_anchor c_points c_tags 0 (?N - 1), c_points ! 0,
                       spec_anchor c_points c_tags 0 1] n_segments))"
      using conic_anchor_good [of c_tags "?N - 1" c_points 0]
        conic_anchor_good [of c_tags 1 c_points 0] by (simp add: conic)
  next
    assume "c_tags ! 0 = FT_Curve_Tag_Cubic \<and> c_tags ! 1 = FT_Curve_Tag_Cubic"
    then show "trace_cubic_off_points c_points c_tags 1 n_segments
                  = Inr (reshape_flat (bezier_curve
                      [c_points ! (?N - 1), c_points ! 0, c_points ! 1,
                       c_points ! cyclic_next ?N 1] n_segments))"
      using cubic by blast
  qed
qed

theorem previous_point_wraps_to_last_witness:
  "trace_conic_off_points [(0, 0), (2, 4), (6, 0), (8, 2)] [0, 1, 1, 2] 0 5 = Inl (ValueError 0 2)
   \<and> trace_conic_off_points [(0, 0), (2, 4), (6, 0), (8, 2)] [0, 1, 1, 0] 0 5
       = Inr (reshape_flat (bezier_curve [(4, 1), (0, 0), (2, 4)] 5))
   \<and> trace_conic_off_points [(0, 0), (2, 4), (6, 0), (8, 2)] [0, 1, 1, 1] 0 5
       = Inr (reshape_flat (bezier_curve [(8, 2), (0, 0), (2, 4)] 5))
   \<and> trace_cubic_off_points [(0, 0), (2, 4), (6, 0), (8, 2)] [2, 2, 1, 1] 1 5
       = Inr (reshape_flat (bezier_curve [(8, 2), (0, 0), (2, 4), (6, 0)] 5))"
  using previous_point_wraps_to_last [of "[(0, 0), (2, 4), (6, 0), (8, 2)]" "[0, 1, 1, 2]" 5]
    previous_point_wraps_to_last [of "[(0, 0), (2, 4), (6, 0), (8, 2)]" "[0, 1, 1, 0]" 5]
    previous_point_wraps_to_last [of "[(0, 0), (2, 4), (6, 0), (8, 2)]" "[0, 1, 1, 1]" 5]
    previous_point_wraps_to_last [of "[(0, 0), (2, 4), (6, 0), (8, 2)]" "[2, 2, 1, 1]" 5]
  by (simp add: cyclic_next_def spec_anchor_def pt_div_def pt_add_def FT_Curve_Tag_On_def
      FT_Curve_Tag_Conic_def FT_Curve_Tag_Cubic_def)

lemma py_slice_nat: "py_slice xs (int a) (int b) = drop a (take b xs)"
  by (simp add: py_slice_def slice_bound_def min_def) 

lemma py_slice_window: "py_slice xs (int i) (int i + 4) = drop i (take (i + 4) xs)"
  using py_slice_nat [of xs i "i + 4"] by simp

lemma contour_windows_concat:
  "contour_windows contour is lines
     = lines @ concat (map (\<lambda>i. drop i (take (i + 4) contour)) is)"
  by (induction "is" arbitrary: lines) (simp_all add: py_slice_window)

lemma flatten_contours_concat:
  "flatten_contours contours lines
     = lines @ concat (map (\<lambda>c. concat (map (\<lambda>i. drop i (take (i + 4) c)) (range_step2 (length c)))
                               @ closing_slice c) contours)"
  by (induction contours arbitrary: lines) (simp_all add: contour_windows_concat)

lemma vertices2lines_concat:
  "vertices2lines contours
     = concat (map (\<lambda>c. concat (map (\<lambda>i. drop i (take (i + 4) c)) (range_step2 (length c)))
                               @ closing_slice c) contours)"
  by (simp add: vertices2lines_def flatten_contours_concat)

lemma take_two:
  assumes "2 \<le> length c"
  shows "take 2 c = [c ! 0, c ! 1]"
proof -
  from assms obtain x y r where "c = x # y # r"
    by (auto simp add: Suc_le_length_iff numeral_2_eq_2)
  then show ?thesis by simp
qed

lemma closing_slice_even:
  assumes "even (length c)" and "2 \<le> length c"
  shows "closing_slice c = point_at c 0"
proof -
  have "py_slice c 0 2 = take 2 c"
    using py_slice_nat [of c 0 2] by simp
  then show ?thesis
    using assms(1) by (simp add: closing_slice_def point_at_def take_two [OF assms(2)])
qed

lemma closing_slice_odd:
  assumes "odd (length c)" and "5 \<le> length c"
  shows "closing_slice c = []"
  using assms by (simp add: closing_slice_def py_slice_def slice_bound_def odd_iff_mod_2_eq_one)

lemma closing_slice_short_odd:
  "closing_slice [a] = [a]" and "closing_slice [a, b, c] = [b]"
  by (simp_all add: closing_slice_def py_slice_def slice_bound_def)

lemma drop_take_nth:
  assumes "i + n \<le> length c"
  shows "drop i (take (i + n) c) = map (\<lambda>j. c ! (i + j)) [0..<n]"
proof (rule nth_equalityI)
  show "length (drop i (take (i + n) c)) = length (map (\<lambda>j. c ! (i + j)) [0..<n])"
    using assms by simp
next
  fix j assume "j < length (drop i (take (i + n) c))"
  then have "j < n" using assms by simp
  then show "drop i (take (i + n) c) ! j = map (\<lambda>j. c ! (i + j)) [0..<n] ! j"
    using assms by simp
qed

lemma upt_4: "[0..<4] = [0, 1, 2, 3]"
  by (simp add: upt_rec)

lemma upt_2: "[0..<2] = [0, 1]"
  by (simp add: upt_rec)

lemma window_inner:
  assumes "2 * k + 4 \<le> length c"
  shows "drop (2 * k) (take (2 * k + 4) c) = point_at c k @ point_at c (Suc k)"
proof -
  have "drop (2 * k) (take (2 * k + 4) c) = map (\<lambda>j. c ! (2 * k + j)) [0..<4]"
    using assms by (rule drop_take_nth)
  then show ?thesis
    unfolding upt_4 point_at_def by (simp add: eval_nat_numeral)
qed

lemma window_last:
  assumes "length c = 2 * Suc m"
  shows "drop (2 * m) (take (2 * m + 4) c) = point_at c m"
proof -
  have "take (2 * m + 4) c = c" using assms by simp
  moreover have "2 * m + 2 \<le> length c" using assms by simp
  then have "drop (2 * m) (take (2 * m + 2) c) = map (\<lambda>j. c ! (2 * m + j)) [0..<2]"
    by (rule drop_take_nth)
  moreover have "take (2 * m + 2) c = c" using assms by simp
  ultimately show ?thesis
    by (simp add: upt_2 point_at_def)
qed

lemma contour_lines_closed:
  assumes "even (length c)" and "2 \<le> length c"
  shows "concat (map (\<lambda>i. drop i (take (i + 4) c)) (range_step2 (length c))) @ closing_slice c
           = closed_segments c"
proof -
  from assms(1) obtain m0 where "length c = 2 * m0" by (auto elim: evenE)
  with assms(2) obtain m where m: "length c = 2 * Suc m" by (cases m0) auto
  have half: "length c div 2 = Suc m" using m by simp
  have r: "range_step2 (length c) = map (\<lambda>k. 2 * k) [0..<Suc m]"
    by (simp add: range_step2_def m)
  have inner: "map (\<lambda>k. drop (2 * k) (take (2 * k + 4) c)) [0..<m]
                 = map (\<lambda>k. point_at c k @ point_at c (Suc k mod Suc m)) [0..<m]"
  proof (rule map_cong [OF refl])
    fix k assume "k \<in> set [0..<m]"
    then have k: "k < m" by simp
    then have "2 * k + 4 \<le> length c" using m by simp
    then show "drop (2 * k) (take (2 * k + 4) c) = point_at c k @ point_at c (Suc k mod Suc m)"
      using k by (simp add: window_inner)
  qed
  have "concat (map (\<lambda>i. drop i (take (i + 4) c)) (range_step2 (length c))) @ closing_slice c
          = concat (map (\<lambda>k. drop (2 * k) (take (2 * k + 4) c)) [0..<m])
              @ drop (2 * m) (take (2 * m + 4) c) @ point_at c 0"
    by (simp add: r comp_def closing_slice_even [OF assms])
  also have "\<dots> = concat (map (\<lambda>k. point_at c k @ point_at c (Suc k mod Suc m)) [0..<m])
                    @ point_at c m @ point_at c (Suc m mod Suc m)"
    by (simp only: inner window_last [OF m] mod_self)
  also have "\<dots> = concat (map (\<lambda>k. point_at c k @ point_at c (Suc k mod Suc m)) [0..<Suc m])"
    by simp
  also have "\<dots> = closed_segments c"
    by (simp only: closed_segments_def half Suc_eq_plus1)
  finally show ?thesis .
qed

text \<open>
  Claim C6, amended. The parity that \<open>vertices2lines\<close> tests is that of the number of
  coordinates, which is even for every whole number of points. So for traced contours
  of at least one point each, whether the number of points is even or odd, the output
  is the closed polyline of each contour: the step that closes the contour appends
  point 0, which completes the segment from the last point to the first.
\<close>

theorem vertices2lines_closes_contours:
  assumes "\<forall>c\<in>set contours. even (length c) \<and> 2 \<le> length c"
  shows "vertices2lines contours = concat (map closed_segments contours)
       \<and> (\<forall>c\<in>set contours. closing_slice c = point_at c 0)"
proof -
  have "map (\<lambda>c. concat (map (\<lambda>i. drop i (take (i + 4) c)) (range_step2 (length c)))
                               @ closing_slice c) contours = map closed_segments contours"
    unfolding map_eq_conv using assms contour_lines_closed by blast
  then have "vertices2lines contours = concat (map closed_segments contours)"
    by (simp only: vertices2lines_concat)
  moreover have "\<forall>c\<in>set contours. closing_slice c = point_at c 0"
    using assms closing_slice_even by blast
  ultimately show ?thesis by (rule conjI)
qed

theorem vertices2lines_closes_contours_witness:
  "vertices2lines [[0, 0, 1, 0, 0, 1], [5, 5, 6, 6]]
     = [0, 0, 1, 0,  1, 0, 0, 1,  0, 1, 0, 0,  5, 5, 6, 6,  6, 6, 5, 5]
   \<and> closing_slice [0, 0, 1, 0, 0, 1] = [0, 0]
   \<and> closing_slice [5, 5, 6, 6] = [5, 5]"
  using vertices2lines_closes_contours [of "[[0, 0, 1, 0, 0, 1], [5, 5, 6, 6]]"]
  by (simp add: closed_segments_def point_at_def upt_3 upt_2)

text \<open>
  Claim C6 as stated fails for a contour of three points: its six coordinates take the
  even branch, the closing slice is point 0 and the closing segment is emitted.
\<close>

theorem vertices2lines_odd_point_count_counterexample:
  "length [0, 0, 1, 0, 0, 1 :: real] div 2 = 3
   \<and> closing_slice [0, 0, 1, 0, 0, 1] = [0, 0]
   \<and> closing_slice [0, 0, 1, 0, 0, 1] \<noteq> []
   \<and> vertices2lines [[0, 0, 1, 0, 0, 1]] = [0, 0, 1, 0,  1, 0, 0, 1,  0, 1, 0, 0]"
  by (simp add: vertices2lines_concat closing_slice_def py_slice_def slice_bound_def
      range_step2_def upt_3)

text \<open>
  Claim C5. The square glyph of four on-curve points with \<open>vertAdvance = 1\<close> is traced
  to one contour holding the same four points, and \<open>vertices2lines\<close> turns that
  contour into the four segments (0,0)-(0,1), (0,1)-(1,1), (1,1)-(1,0), (1,0)-(0,0).
\<close>

theorem square_glyph_round_trip:
  "glyph2vertices \<lparr>outline_points = [(0, 0), (0, 1), (1, 1), (1, 0)],
                    outline_tags = [1, 1, 1, 1], outline_contours = [3],
                    vertAdvance = 1\<rparr> n_segments
     = Inr [[0, 0, 0, 1, 1, 1, 1, 0]]
   \<and> vertices2lines [[0, 0, 0, 1, 1, 1, 1, 0]]
     = [0, 0, 0, 1,  0, 1, 1, 1,  1, 1, 1, 0,  1, 0, 0, 0]"
proof -
  have sl: "py_slice [(0, 0), (0, 1), (1, 1), (1, 0)] 0 4
              = [(0, 0), (0, 1), (1, 1), (1 :: real, 0 :: real)]"
    "py_slice [Suc 0, Suc 0, Suc 0, Suc 0] 0 4 = [Suc 0, Suc 0, Suc 0, Suc 0]"
    by (simp_all add: py_slice_def slice_bound_def)
  have tp:
    "trace_point [(0, 0), (0, 1), (1, 1), (1, 0)] [Suc 0, Suc 0, Suc 0, Suc 0] n_segments 0
       = Inr [0, 0]"
    "trace_point [(0, 0), (0, 1), (1, 1), (1, 0)] [Suc 0, Suc 0, Suc 0, Suc 0] n_segments (Suc 0)
       = Inr [0, 1]"
    "trace_point [(0, 0), (0, 1), (1, 1), (1, 0)] [Suc 0, Suc 0, Suc 0, Suc 0] n_segments
       (Suc (Suc 0)) = Inr [1, 1]"
    "trace_point [(0, 0), (0, 1), (1, 1), (1, 0)] [Suc 0, Suc 0, Suc 0, Suc 0] n_segments
       (Suc (Suc (Suc 0))) = Inr [1, 0]"
    by (simp_all add: trace_point_def py_index_def FT_Curve_Tag_On_def)
  have "glyph2vertices \<lparr>outline_points = [(0, 0), (0, 1), (1, 1), (1, 0)],
                    outline_tags = [1, 1, 1, 1], outline_contours = [3],
                    vertAdvance = 1\<rparr> n_segments
     = Inr [[0, 0, 0, 1, 1, 1, 1, 0]]"
    by (simp add: glyph2vertices_def FT_CURVE_TAG_def sl upt_4 tp Let_def)
  moreover have "vertices2lines [[0, 0, 0, 1, 1, 1, 1, 0]]
     = [0, 0, 0, 1,  0, 1, 1, 1,  1, 1, 1, 0,  1, 0, 0, 0]"
    by (simp add: vertices2lines_concat closing_slice_def py_slice_def slice_bound_def
      range_step2_def upt_4)
  ultimately show ?thesis by (rule conjI)
qed

lemma and_then_eq_Inr:
  "and_then m f = Inr r \<longleftrightarrow> (\<exists>v. m = Inr v \<and> f v = Inr r)"
  by (cases m) simp_all

lemma walk_contour_pieces:
  assumes "walk_contour cp ct n is acc0 = Inr r"
  shows "\<exists>pieces. length pieces = length is
           \<and> (\<forall>j<length is. trace_point cp ct n (is ! j) = Inr (pieces ! j))
           \<and> r = acc0 @ concat pieces"
  using assms
proof (induction "is" arbitrary: acc0)
  case Nil
  then show ?case by simp
next
  case (Cons i rest)
  from Cons.prems obtain p where p: "trace_point cp ct n i = Inr p"
    and w: "walk_contour cp ct n rest (acc0 @ p) = Inr r"
    by (auto simp add: and_then_eq_Inr)
  from Cons.IH [OF w] obtain pieces where len: "length pieces = length rest"
    and tp: "\<forall>j<length rest. trace_point cp ct n (rest ! j) = Inr (pieces ! j)"
    and r: "r = (acc0 @ p) @ concat pieces"
    by blast
  have "\<forall>j<length (i # rest). trace_point cp ct n ((i # rest) ! j) = Inr ((p # pieces) ! j)"
  proof (intro allI impI)
    fix j assume "j < length (i # rest)"
    then show "trace_point cp ct n ((i # rest) ! j) = Inr ((p # pieces) ! j)"
      using p tp by (cases j) simp_all
  qed
  moreover have "length (p # pieces) = length (i # rest)" using len by simp
  moreover have "r = acc0 @ concat (p # pieces)" using r by simp
  ultimately show ?case by blast
qed

lemma slice_start_Suc:
  "slice_start prev_c (c # cs) (Suc k) = slice_start (int c) cs k"
  by (cases k) (simp_all add: slice_start_def)

lemma trace_contours_nth:
  assumes "trace_contours pts tags va n prev_c cs out0 = Inr out"
  shows "length out = length out0 + length cs
       \<and> take (length out0) out = out0
       \<and> (\<forall>k<length cs. \<exists>acc.
             walk_contour (py_slice pts (slice_start prev_c cs k) (int (cs ! k) + 1))
                          (py_slice tags (slice_start prev_c cs k) (int (cs ! k) + 1)) n
                          [0..<length (py_slice pts (slice_start prev_c cs k) (int (cs ! k) + 1))] []
               = Inr acc
             \<and> out ! (length out0 + k) = map (\<lambda>x. x / va) acc)"
  using assms
proof (induction cs arbitrary: prev_c out0)
  case Nil
  then show ?case by simp
next
  case (Cons c cs)
  let ?cp = "py_slice pts (prev_c + 1) (int c + 1)"
  let ?ct = "py_slice tags (prev_c + 1) (int c + 1)"
  from Cons.prems obtain acc0 where
    w: "walk_contour ?cp ?ct n [0..<length ?cp] [] = Inr acc0"
    and t: "trace_contours pts tags va n (int c) cs (out0 @ [map (\<lambda>x. x / va) acc0]) = Inr out"
    by (auto simp add: and_then_eq_Inr Let_def)
  from Cons.IH [OF t] have
    len: "length out = length (out0 @ [map (\<lambda>x. x / va) acc0]) + length cs"
    and tk: "take (length (out0 @ [map (\<lambda>x. x / va) acc0])) out = out0 @ [map (\<lambda>x. x / va) acc0]"
    and rest: "\<forall>k<length cs. \<exists>acc.
             walk_contour (py_slice pts (slice_start (int c) cs k) (int (cs ! k) + 1))
                          (py_slice tags (slice_start (int c) cs k) (int (cs ! k) + 1)) n
                          [0..<length (py_slice pts (slice_start (int c) cs k) (int (cs ! k) + 1))] []
               = Inr acc
             \<and> out ! (length (out0 @ [map (\<lambda>x. x / va) acc0]) + k) = map (\<lambda>x. x / va) acc"
    by blast+
  have l1: "length out = length out0 + length (c # cs)" using len by simp
  have "take (length out0) (take (length (out0 @ [map (\<lambda>x. x / va) acc0])) out) = out0"
    by (simp only: tk) simp
  then have l2: "take (length out0) out = out0" by (simp add: min_def)
  have "take (length (out0 @ [map (\<lambda>x. x / va) acc0])) out ! length out0
          = map (\<lambda>x. x / va) acc0"
    by (simp only: tk) simp
  then have first: "out ! length out0 = map (\<lambda>x. x / va) acc0" by simp
  have l3: "\<forall>k<length (c # cs). \<exists>acc.
             walk_contour (py_slice pts (slice_start prev_c (c # cs) k) (int ((c # cs) ! k) + 1))
                          (py_slice tags (slice_start prev_c (c # cs) k) (int ((c # cs) ! k) + 1)) n
                          [0..<length (py_slice pts (slice_start prev_c (c # cs) k) (int ((c # cs) ! k) + 1))] []
               = Inr acc
             \<and> out ! (length out0 + k) = map (\<lambda>x. x / va) acc"
  proof (intro allI impI)
    fix k assume k: "k < length (c # cs)"
    show "\<exists>acc.
             walk_contour (py_slice pts (slice_start prev_c (c # cs) k) (int ((c # cs) ! k) + 1))
                          (py_slice tags (slice_start prev_c (c # cs) k) (int ((c # cs) ! k) + 1)) n
                          [0..<length (py_slice pts (slice_start prev_c (c # cs) k) (int ((c # cs) ! k) + 1))] []
               = Inr acc
             \<and> out ! (length out0 + k) = map (\<lambda>x. x / va) acc"
    proof (cases k)
      case 0
      then show ?thesis using w first by (simp add: slice_start_def)
    next
      case (Suc k')
      with k have "k' < length cs" by simp
      with rest obtain acc where
        "walk_contour (py_slice pts (slice_start (int c) cs k') (int (cs ! k') + 1))
                      (py_slice tags (slice_start (int c) cs k') (int (cs ! k') + 1)) n
                      [0..<length (py_slice pts (slice_start (int c) cs k') (int (cs ! k') + 1))] []
               = Inr acc"
        and "out ! (length (out0 @ [map (\<lambda>x. x / va) acc0]) + k') = map (\<lambda>x. x / va) acc"
        by blast
      then show ?thesis
        unfolding Suc slice_start_Suc by simp
    qed
  qed
  from l1 l2 l3 show ?case by blast
qed

text \<open>The tracing of a glyph returns when every point of every contour can be traced.\<close>

lemma walk_contour_returns:
  assumes "\<forall>i\<in>set is. \<exists>v. trace_point cp ct n i = Inr v"
  shows "\<exists>r. walk_contour cp ct n is acc0 = Inr r"
  using assms
proof (induction "is" arbitrary: acc0)
  case Nil
  then show ?case by simp
next
  case (Cons i rest)
  then obtain v where v: "trace_point cp ct n i = Inr v" by auto
  from Cons.prems have "\<forall>j\<in>set rest. \<exists>v. trace_point cp ct n j = Inr v" by simp
  from Cons.IH [OF this, of "acc0 @ v"] show ?case by (simp add: v)
qed

lemma trace_contours_returns:
  assumes "\<forall>k<length cs. \<exists>acc.
             walk_contour (py_slice pts (slice_start prev_c cs k) (int (cs ! k) + 1))
                          (py_slice tags (slice_start prev_c cs k) (int (cs ! k) + 1)) n
                          [0..<length (py_slice pts (slice_start prev_c cs k) (int (cs ! k) + 1))] []
               = Inr acc"
  shows "\<exists>out. trace_contours pts tags va n prev_c cs out0 = Inr out"
  using assms
proof (induction cs arbitrary: prev_c out0)
  case Nil
  then show ?case by simp
next
  case (Cons c cs)
  from Cons.prems [rule_format, of 0] obtain acc where
    w: "walk_contour (py_slice pts (prev_c + 1) (int c + 1))
                     (py_slice tags (prev_c + 1) (int c + 1)) n
                     [0..<length (py_slice pts (prev_c + 1) (int c + 1))] [] = Inr acc"
    by (auto simp add: slice_start_def)
  have "\<forall>k<length cs. \<exists>acc.
             walk_contour (py_slice pts (slice_start (int c) cs k) (int (cs ! k) + 1))
                          (py_slice tags (slice_start (int c) cs k) (int (cs ! k) + 1)) n
                          [0..<length (py_slice pts (slice_start (int c) cs k) (int (cs ! k) + 1))] []
               = Inr acc"
  proof (intro allI impI)
    fix k assume "k < length cs"
    then have "Suc k < length (c # cs)" by simp
    from Cons.prems [rule_format, OF this]
    show "\<exists>acc.
             walk_contour (py_slice pts (slice_start (int c) cs k) (int (cs ! k) + 1))
                          (py_slice tags (slice_start (int c) cs k) (int (cs ! k) + 1)) n
                          [0..<length (py_slice pts (slice_start (int c) cs k) (int (cs ! k) + 1))] []
               = Inr acc"
      by (simp add: slice_start_Suc)
  qed
  from Cons.IH [OF this, of "out0 @ [map (\<lambda>x. x / va) acc]"]
  show ?case by (simp add: w Let_def)
qed

lemma glyph2vertices_returns:
  assumes "\<forall>k<length (outline_contours g). \<forall>i<length (contour_points g k).
             \<exists>v. trace_point (contour_points g k) (contour_tags g k) n_segments i = Inr v"
  shows "\<exists>out. glyph2vertices g n_segments = Inr out"
  unfolding glyph2vertices_def
proof (rule trace_contours_returns, intro allI impI)
  fix k assume "k < length (outline_contours g)"
  with assms have "\<forall>i\<in>set [0..<length (contour_points g k)].
      \<exists>v. trace_point (contour_points g k) (contour_tags g k) n_segments i = Inr v"
    by simp
  from walk_contour_returns [OF this, of "[]"]
  show "\<exists>acc. walk_contour
           (py_slice (outline_points g) (slice_start (- 1) (outline_contours g) k)
             (int (outline_contours g ! k) + 1))
           (py_slice (map FT_CURVE_TAG (outline_tags g)) (slice_start (- 1) (outline_contours g) k)
             (int (outline_contours g ! k) + 1)) n_segments
           [0..<length (py_slice (outline_points g) (slice_start (- 1) (outline_contours g) k)
                         (int (outline_contours g ! k) + 1))] [] = Inr acc"
    by (simp add: contour_points_def contour_tags_def)
qed

text \<open>
  Claim C8. When \<open>glyph2vertices\<close> returns, it returns one array per contour, and the
  array of contour \<open>k\<close> is what was accumulated for it before the normalization (for
  each point of the contour in walk order, the coordinates that \<open>trace_point\<close> gives:
  the point itself when it is on the curve, the sampled arc otherwise) with every
  coordinate divided by \<open>vertAdvance\<close>.
\<close>

theorem glyph2vertices_normalized:
  assumes "vertAdvance g \<noteq> 0" and "glyph2vertices g n_segments = Inr out"
  shows "length out = length (outline_contours g)
       \<and> (\<forall>k<length (outline_contours g). \<exists>pieces.
             length pieces = length (contour_points g k)
             \<and> (\<forall>i<length pieces.
                   trace_point (contour_points g k) (contour_tags g k) n_segments i
                     = Inr (pieces ! i))
             \<and> out ! k = map (\<lambda>x. x / vertAdvance g) (concat pieces))"
proof -
  note tc = trace_contours_nth [OF assms(2) [unfolded glyph2vertices_def]]
  from tc have len: "length out = length (outline_contours g)" by simp
  have "\<forall>k<length (outline_contours g). \<exists>pieces.
             length pieces = length (contour_points g k)
             \<and> (\<forall>i<length pieces.
                   trace_point (contour_points g k) (contour_tags g k) n_segments i
                     = Inr (pieces ! i))
             \<and> out ! k = map (\<lambda>x. x / vertAdvance g) (concat pieces)"
  proof (intro allI impI)
    fix k assume "k < length (outline_contours g)"
    with tc obtain acc where
      w: "walk_contour (contour_points g k) (contour_tags g k) n_segments
            [0..<length (contour_points g k)] [] = Inr acc"
      and o: "out ! k = map (\<lambda>x. x / vertAdvance g) acc"
      unfolding contour_points_def contour_tags_def by auto
    from walk_contour_pieces [OF w] obtain pieces where
      "length pieces = length (contour_points g k)"
      and "\<forall>j<length (contour_points g k).
             trace_point (contour_points g k) (contour_tags g k) n_segments j = Inr (pieces ! j)"
      and "acc = concat pieces"
      by auto
    with o show "\<exists>pieces.
             length pieces = length (contour_points g k)
             \<and> (\<forall>i<length pieces.
                   trace_point (contour_points g k) (contour_tags g k) n_segments i
                     = Inr (pieces ! i))
             \<and> out ! k = map (\<lambda>x. x / vertAdvance g) (concat pieces)"
      by auto
  qed
  with len show ?thesis by blast
qed

theorem glyph2vertices_normalized_witness:
  "glyph2vertices \<lparr>outline_points = [(0, 0), (2, 4), (4, 0)], outline_tags = [1, 0, 1],
                    outline_contours = [2], vertAdvance = 2\<rparr> 2
     = Inr [[0, 0, 0, 0, 2, 0, 2, 0]]
   \<and> (\<exists>pieces. length pieces = 3
         \<and> (\<forall>i<length pieces.
               trace_point [(0, 0), (2, 4), (4, 0)] [1, 0, 1] 2 i = Inr (pieces ! i))
         \<and> [0, 0, 0, 0, 2, 0, 2, 0] = map (\<lambda>x. x / 2) (concat pieces))"
proof -
  let ?G = "\<lparr>outline_points = [(0, 0), (2, 4), (4, 0)], outline_tags = [1, 0, 1],
              outline_contours = [2], vertAdvance = 2\<rparr>"
  have sl: "py_slice [(0, 0), (2, 4), (4, 0)] 0 3 = [(0, 0), (2, 4), (4 :: real, 0 :: real)]"
    "py_slice [Suc 0, 0, Suc 0] 0 3 = [Suc 0, 0, Suc 0]"
    by (simp_all add: py_slice_def slice_bound_def)
  have c: "trace_conic_off_points [(0, 0), (2, 4), (4, 0)] [Suc 0, 0, Suc 0] 1 2
             = Inr [0, 0, 4, 0]"
    using trace_conic_unfold [of 1 "[(0, 0), (2, 4), (4, 0)]" "[Suc 0, 0, Suc 0]" 2]
    by (simp add: conic_anchor_def cyclic_prev_def cyclic_next_def FT_Curve_Tag_On_def
        bezier_two_samples reshape_flat_def)
  have tp:
    "trace_point [(0, 0), (2, 4), (4, 0)] [Suc 0, 0, Suc 0] 2 0 = Inr [0, 0]"
    "trace_point [(0, 0), (2, 4), (4, 0)] [Suc 0, 0, Suc 0] 2 (Suc 0) = Inr [0, 0, 4, 0]"
    "trace_point [(0, 0), (2, 4), (4, 0)] [Suc 0, 0, Suc 0] 2 (Suc (Suc 0)) = Inr [4, 0]"
    by (simp_all add: trace_point_def py_index_def FT_Curve_Tag_On_def FT_Curve_Tag_Conic_def c)
  have ev: "glyph2vertices ?G 2 = Inr [[0, 0, 0, 0, 2, 0, 2, 0]]"
    by (simp add: glyph2vertices_def FT_CURVE_TAG_def sl upt_3 tp Let_def)
  have va: "vertAdvance ?G \<noteq> 0" by simp
  have cp: "contour_points ?G 0 = [(0, 0), (2, 4), (4, 0)]"
    and ct: "contour_tags ?G 0 = [1, 0, 1]"
    by (simp_all add: contour_points_def contour_tags_def slice_start_def FT_CURVE_TAG_def sl)
  from glyph2vertices_normalized [OF va ev]
  have "\<exists>pieces. length pieces = length (contour_points ?G 0)
         \<and> (\<forall>i<length pieces.
               trace_point (contour_points ?G 0) (contour_tags ?G 0) 2 i = Inr (pieces ! i))
         \<and> [[0, 0, 0, 0, 2, 0, 2, 0]] ! 0 = map (\<lambda>x. x / vertAdvance ?G) (concat pieces)"
    by simp
  then have "\<exists>pieces. length pieces = 3
         \<and> (\<forall>i<length pieces.
               trace_point [(0, 0), (2, 4), (4, 0)] [1, 0, 1] 2 i = Inr (pieces ! i))
         \<and> [0, 0, 0, 0, 2, 0, 2, 0] = map (\<lambda>x. x / 2) (concat pieces)"
    unfolding cp ct by (simp add: numeral_3_eq_3)
  with ev show ?thesis by (rule conjI)
qed

end
